theory Spec2Isabelle
  imports Main
begin

section \<open>Go strings: bytes, runes and the library functions the renderer calls\<close>

text \<open>
  A Go string is a sequence of bytes; \<open>string\<close> (a list of 8-bit characters) is the
  same thing. The renderer calls a handful of functions of Go's standard library
  (\<open>strings.ToLower\<close>, \<open>strings.IndexAny\<close>, \<open>unicode.IsSpace\<close>, the \<open>range\<close> loop
  over a string, \<open>strings.Builder.WriteRune\<close>); they are written out here after their
  documented behaviour, on bytes and code points.
\<close>

definition byte :: "char \<Rightarrow> nat" where
  "byte c = of_char c"

definition RuneError :: nat where
  "RuneError = 0xFFFD"

text \<open>
  \<open>utf8.DecodeRuneInString\<close>: the first code point of a string and its width in bytes.
  An invalid or truncated encoding yields \<open>(RuneError, 1)\<close>, the empty string
  \<open>(RuneError, 0)\<close>. The second byte of a sequence has a range that depends on the first
  one (no overlong forms, no surrogates, nothing above U+10FFFF).
\<close>

fun decodeRune :: "string \<Rightarrow> nat \<times> nat" where
  "decodeRune [] = (RuneError, 0)"
| "decodeRune (c0 # rest) =
     (let s0 = byte c0 in
      if s0 < 0x80 then (s0, 1)
      else if s0 < 0xC2 \<or> 0xF4 < s0 then (RuneError, 1)
      else
        let sz = (if s0 < 0xE0 then 2 else if s0 < 0xF0 then 3 else (4::nat));
            lo = (if s0 = 0xE0 then 0xA0 else if s0 = 0xF0 then 0x90 else 0x80);
            hi = (if s0 = 0xED then 0x9F else if s0 = 0xF4 then 0x8F else 0xBF)
        in
        if Suc (length rest) < sz then (RuneError, 1)
        else
          let s1 = byte (rest ! 0) in
          if s1 < lo \<or> hi < s1 then (RuneError, 1)
          else if sz \<le> 2 then ((s0 mod 32) * 64 + s1 mod 64, 2)
          else
            let s2 = byte (rest ! 1) in
            if s2 < 0x80 \<or> 0xBF < s2 then (RuneError, 1)
            else if sz \<le> 3 then ((s0 mod 16) * 4096 + (s1 mod 64) * 64 + s2 mod 64, 3)
            else
              let s3 = byte (rest ! 2) in
              if s3 < 0x80 \<or> 0xBF < s3 then (RuneError, 1)
              else ((s0 mod 8) * 262144 + (s1 mod 64) * 4096 + (s2 mod 64) * 64
                      + s3 mod 64, 4))"

text \<open>The runes a \<open>for _, v := range s\<close> loop visits, in order.\<close>

function runes :: "string \<Rightarrow> nat list" where
  "runes s = (if s = [] then [] else fst (decodeRune s) # runes (drop (snd (decodeRune s)) s))"
  by pat_completeness auto
termination
proof (relation "measure length")
  show "wf (measure length)" by simp
next
  fix s :: string
  assume ne: "s \<noteq> []"
  then obtain c0 rest where s: "s = c0 # rest" by (cases s) auto
  have "0 < snd (decodeRune (c0 # rest))"
    by (simp add: Let_def)
  with s show "(drop (snd (decodeRune s)) s, s) \<in> measure length"
    by simp
qed

text \<open>
  \<open>utf8.AppendRune\<close>, which \<open>WriteRune\<close> uses: surrogates and values above U+10FFFF are
  written as the encoding of \<open>RuneError\<close>.
\<close>

definition encodeRune :: "nat \<Rightarrow> string" where
  "encodeRune r =
     (if r < 0x80 then [char_of r]
      else if r < 0x800 then [char_of (0xC0 + r div 64), char_of (0x80 + r mod 64)]
      else if (0xD800 \<le> r \<and> r \<le> 0xDFFF) \<or> 0x10FFFF < r
        then [CHR 0xEF, CHR 0xBF, CHR 0xBD]
      else if r < 0x10000
        then [char_of (0xE0 + r div 4096), char_of (0x80 + (r div 64) mod 64),
              char_of (0x80 + r mod 64)]
      else [char_of (0xF0 + r div 262144), char_of (0x80 + (r div 4096) mod 64),
            char_of (0x80 + (r div 64) mod 64), char_of (0x80 + r mod 64)])"

text \<open>
  \<open>unicode.IsSpace\<close>: in Latin-1 the characters tab, newline, vertical tab, form feed,
  carriage return, space, U+0085 and U+00A0; above it the code points with the Unicode
  property White_Space.
\<close>

definition IsSpace :: "nat \<Rightarrow> bool" where
  "IsSpace r =
     (if r \<le> 0xFF
      then r = 0x09 \<or> r = 0x0A \<or> r = 0x0B \<or> r = 0x0C \<or> r = 0x0D \<or> r = 0x20
             \<or> r = 0x85 \<or> r = 0xA0
      else r = 0x1680 \<or> (0x2000 \<le> r \<and> r \<le> 0x200A) \<or> r = 0x2028 \<or> r = 0x2029
             \<or> r = 0x202F \<or> r = 0x205F \<or> r = 0x3000)"

text \<open>
  \<open>strings.ToLower\<close>. A string of ASCII bytes only has its letters \<open>A\<close> to \<open>Z\<close> mapped
  to \<open>a\<close> to \<open>z\<close>. Any other string goes through \<open>strings.Map(unicode.ToLower, s)\<close>:
  every rune is mapped and encoded again. The case tables of package \<open>unicode\<close> are not
  part of the repository; \<open>U\<close> stands for \<open>unicode.ToLower\<close> throughout.
\<close>

definition isASCII :: "string \<Rightarrow> bool" where
  "isASCII s = list_all (\<lambda>c. byte c < 0x80) s"

definition lowerASCII :: "char \<Rightarrow> char" where
  "lowerASCII c =
     (case map_of (zip ''ABCDEFGHIJKLMNOPQRSTUVWXYZ'' ''abcdefghijklmnopqrstuvwxyz'') c of
        Some d \<Rightarrow> d
      | None \<Rightarrow> c)"

definition ToLower :: "(nat \<Rightarrow> nat) \<Rightarrow> string \<Rightarrow> string" where
  "ToLower U s =
     (if isASCII s then map lowerASCII s else concat (map (\<lambda>r. encodeRune (U r)) (runes s)))"

text \<open>
  \<open>strings.IndexAny(s, chars)\<close> for a set \<open>chars\<close> of ASCII characters: the index of the
  first byte of \<open>s\<close> that is one of them, \<open>None\<close> for Go's \<open>-1\<close>. (An ASCII byte is never
  part of a multi-byte encoding, so the search by runes and the search by bytes agree.)
\<close>

fun IndexAny :: "string \<Rightarrow> string \<Rightarrow> nat option" where
  "IndexAny [] chars = None"
| "IndexAny (c # cs) chars =
     (if c \<in> set chars then Some 0 else map_option Suc (IndexAny cs chars))"

abbreviation TAB :: string where "TAB \<equiv> [CHR 0x09]"
abbreviation DQUOTE :: string where "DQUOTE \<equiv> [CHR 0x22]"
abbreviation APOS :: string where "APOS \<equiv> [CHR 0x27]"

section \<open>elements.go: the policy table and the renderability decision\<close>

record nodeElements =
  attributes :: "string list"
  style :: string

text \<open>
  The package's global flags. The three of parse.go are set before a render and only read
  by it; the two of elements.go are written by \<open>isElementRenderable\<close>. Nothing in the
  package assigns \<open>false\<close> to either of them once it has been set.
\<close>

record config =
  renderCanonicalMode :: bool
  renderStyle :: bool
  renderLinks :: bool

record state =
  encounteredBodyElement :: bool
  encounteredFirstH1Element :: bool

definition initial_state :: state where
  "initial_state = \<lparr>encounteredBodyElement = False, encounteredFirstH1Element = False\<rparr>"


definition voidElements :: "string \<Rightarrow> bool" where
  "voidElements tag \<longleftrightarrow>
     tag \<in> set [''area'', ''base'', ''br'', ''col'', ''embed'', ''hr'', ''img'', ''input'',
                ''keygen'', ''link'', ''meta'', ''param'', ''source'', ''track'', ''wbr'']"

definition renderableHTML_entries :: "(string \<times> nodeElements) list" where
  "renderableHTML_entries =
   [(''html'', \<lparr>attributes = [], style =
        ''\<newline>'' @ TAB @ TAB @ ''margin: auto;\<newline>''
        @ TAB @ TAB @ ''height: 100%;\<newline>''
        @ TAB @ TAB @ ''display: table;\<newline>''
        @ TAB @ TAB @ ''background: #d6dede;\<newline>''
        @ TAB @ TAB\<rparr>),
    (''head'', \<lparr>attributes = [], style = []\<rparr>),
    (''title'', \<lparr>attributes = [], style = []\<rparr>),
    (''body'', \<lparr>attributes = [], style =
        ''\<newline>'' @ TAB @ TAB @ ''margin: 0 auto;\<newline>''
        @ TAB @ TAB @ ''padding-left: 20px;\<newline>''
        @ TAB @ TAB @ ''padding-right: 20px;\<newline>''
        @ TAB @ TAB @ ''height: 100%;\<newline>''
        @ TAB @ TAB @ ''font: 115% '' @ APOS @ ''PT Sans'' @ APOS @ '', '' @ APOS
            @ ''Helvetica'' @ APOS @ '', sans-serif;\<newline>''
        @ TAB @ TAB @ ''max-width: 800px;\<newline>''
        @ TAB @ TAB @ ''color: #555753; \<newline>''
        @ TAB @ TAB @ ''background: #fff; \<newline>''
        @ TAB @ TAB @ ''display: table-cell;\<newline>''
        @ TAB @ TAB @ ''vertical-align: middle;\<newline>''
        @ TAB @ TAB\<rparr>),
    (''div'', \<lparr>attributes = [], style = []\<rparr>),
    (''span'', \<lparr>attributes = [], style = []\<rparr>),
    (''h1'', \<lparr>attributes = [], style =
        ''\<newline>'' @ TAB @ TAB @ ''font-size: 175%;\<newline>''
        @ TAB @ TAB @ ''margin-top: 40px;\<newline>''
        @ TAB @ TAB\<rparr>),
    (''h2'', \<lparr>attributes = [], style =
        ''\<newline>'' @ TAB @ TAB @ ''font-size: 145%;\<newline>''
        @ TAB @ TAB @ ''margin-top: 30px;\<newline>''
        @ TAB @ TAB\<rparr>),
    (''h3'', \<lparr>attributes = [], style =
        ''\<newline>'' @ TAB @ TAB @ ''font-size: 130%;\<newline>''
        @ TAB @ TAB @ ''margin-top: 20px;\<newline>''
        @ TAB @ TAB\<rparr>),
    (''h4'', \<lparr>attributes = [], style = []\<rparr>),
    (''h5'', \<lparr>attributes = [], style = []\<rparr>),
    (''h6'', \<lparr>attributes = [], style = []\<rparr>),
    (''p'', \<lparr>attributes = [], style = []\<rparr>),
    (''blockquote'', \<lparr>attributes = [], style = []\<rparr>),
    (''pre'', \<lparr>attributes = [], style =
        ''font-family: Menlo, monospace;\<newline>''
        @ TAB @ TAB @ ''font-size: 0.875rem;''\<rparr>),
    (''code'', \<lparr>attributes = [], style =
        ''font-family: Menlo, monospace;\<newline>''
        @ TAB @ TAB @ ''word-spacing: -0.3em;\<newline>''
        @ TAB @ TAB @ ''font-size: 0.875rem;''\<rparr>),
    (''a'', \<lparr>attributes = [''href''], style = []\<rparr>),
    (''b'', \<lparr>attributes = [], style = []\<rparr>),
    (''em'', \<lparr>attributes = [], style = []\<rparr>),
    (''i'', \<lparr>attributes = [], style = []\<rparr>),
    (''br'', \<lparr>attributes = [], style = []\<rparr>),
    (''caption'', \<lparr>attributes = [], style = []\<rparr>),
    (''col'', \<lparr>attributes = [], style = []\<rparr>),
    (''colgroup'', \<lparr>attributes = [], style = []\<rparr>),
    (''table'', \<lparr>attributes = [], style = []\<rparr>),
    (''tbody'', \<lparr>attributes = [], style = []\<rparr>),
    (''td'', \<lparr>attributes = [], style = []\<rparr>),
    (''tfoot'', \<lparr>attributes = [], style = []\<rparr>),
    (''th'', \<lparr>attributes = [], style = []\<rparr>),
    (''thead'', \<lparr>attributes = [], style = []\<rparr>),
    (''tr'', \<lparr>attributes = [], style = []\<rparr>)]"

definition renderableHTML :: "string \<rightharpoonup> nodeElements" where
  "renderableHTML = map_of renderableHTML_entries"

text \<open>Indexing a Go map with a key it does not hold yields the zero value.\<close>

definition renderableHTML_at :: "string \<Rightarrow> nodeElements" where
  "renderableHTML_at key =
     (case renderableHTML key of
        Some e \<Rightarrow> e
      | None \<Rightarrow> \<lparr>attributes = [], style = []\<rparr>)"

definition isElementRenderable ::
  "(nat \<Rightarrow> nat) \<Rightarrow> config \<Rightarrow> string \<Rightarrow> state \<Rightarrow> bool \<times> state" where
  "isElementRenderable U cfg node st =
     (let lcaseTag = ToLower U node;
          doRender = (renderableHTML lcaseTag \<noteq> None)
      in
      if lcaseTag = ''a'' \<and> doRender \<and> \<not> renderLinks cfg then (False, st)
      else if renderCanonicalMode cfg \<and> doRender then
        (let st1 = (if lcaseTag = ''body'' then st\<lparr>encounteredBodyElement := True\<rparr> else st);
             doRender1 = (if encounteredBodyElement st1 \<and> \<not> encounteredFirstH1Element st1
                             \<and> lcaseTag \<noteq> ''body''
                          then False else doRender)
         in
         if lcaseTag = ''h1'' then (True, st1\<lparr>encounteredFirstH1Element := True\<rparr>)
         else (doRender1, st1))
      else (doRender, st))"

definition isElementAttributeRenderable :: "(nat \<Rightarrow> nat) \<Rightarrow> string \<Rightarrow> string \<Rightarrow> bool" where
  "isElementAttributeRenderable U node attr =
     (let lcNode = ToLower U node in
      case renderableHTML lcNode of
        None \<Rightarrow> False
      | Some e \<Rightarrow> attr \<in> set (attributes e))"

section \<open>The parsed tree\<close>

text \<open>
  \<open>html.Node\<close> of golang.org/x/net/html, as far as the renderer reads it. The node
  type is a \<open>uint32\<close>; \<open>OtherNode\<close> stands for every value that is none of the seven
  exported constants. The \<open>FirstChild\<close>/\<open>NextSibling\<close> chain is the list of children,
  and \<open>c.Parent\<close> of a child reached through that chain is the node the chain belongs to.
\<close>

datatype NodeType =
  ErrorNode | TextNode | DocumentNode | ElementNode | CommentNode | DoctypeNode | RawNode
  | OtherNode

record Attribute =
  Namespace :: string
  Key :: string
  Val :: string

datatype Node = Node (Type: NodeType) (Data: string) (Attr: "Attribute list")
  (Children: "Node list")

section \<open>render.go\<close>

text \<open>
  The writer is the \<open>bytes.Buffer\<close> that \<open>CleanHTML\<close> passes in: a byte string that
  grows at its end, whose write methods return a \<open>nil\<close> error. A buffer \<open>w\<close> below is
  the content of that buffer.
\<close>

type_synonym buffer = string

datatype error =
  ErrorNodeError string
  | UnknownNodeType
  | VoidElementHasChildren string
  | ParseError string

fun Error :: "error \<Rightarrow> string" where
  "Error (ErrorNodeError d) = ''cleanhtml: error node ['' @ d @ '']''"
| "Error UnknownNodeType = ''html: unknown node type''"
| "Error (VoidElementHasChildren d) = ''html: void element <'' @ d @ ''> has child nodes''"
| "Error (ParseError msg) = msg"

text \<open>
  How a call ends: it returns a \<open>nil\<close> error, returns an error, or panics. A panic
  passes through every caller, also through one that drops the returned error.
\<close>

datatype outcome = Ok | Err error | Panic string

definition escapedChars :: string where
  "escapedChars = ''&'' @ APOS @ ''<>'' @ DQUOTE @ [CHR 0x0D]"

text \<open>The \<open>switch s[i]\<close> of \<open>escape\<close>; \<open>None\<close> is its \<open>default\<close> branch.\<close>

definition escapeSwitch :: "char \<Rightarrow> string option" where
  "escapeSwitch c =
     (if c = CHR ''&'' then Some ''&amp;''
      else if c = CHR 0x27 then Some ''&#39;''
      else if c = CHR ''<'' then Some ''&lt;''
      else if c = CHR ''>'' then Some ''&gt;''
      else if c = CHR 0x22 then Some ''&#34;''
      else if c = CHR 0x0D then Some ''&#13;''
      else None)"

text \<open>\<open>Inl\<close> is the panic of the \<open>default\<close> branch, \<open>Inr\<close> the buffer after the writes.\<close>

function escape :: "buffer \<Rightarrow> string \<Rightarrow> string + buffer" where
  "escape w s =
     (case IndexAny s escapedChars of
        None \<Rightarrow> Inr (w @ s)
      | Some i \<Rightarrow>
          (case escapeSwitch (s ! i) of
             None \<Rightarrow> Inl ''unrecognized escape character''
           | Some esc \<Rightarrow> escape (w @ take i s @ esc) (drop (Suc i) s)))"
  by pat_completeness auto
termination
proof (relation "measure (\<lambda>(w, s). length s)")
  show "wf (measure (\<lambda>(w, s). length s))" by simp
next
  fix w s :: string and i :: nat and esc :: string
  assume found: "IndexAny s escapedChars = Some i"
  have bound: "IndexAny t cs = Some k \<Longrightarrow> k < length t" for t cs k
    by (induction t arbitrary: k) (auto split: if_splits)
  from bound [OF found]
  show "((w @ take i s @ esc, drop (Suc i) s), (w, s)) \<in> measure (\<lambda>(w, s). length s)"
    by simp
qed

definition isTextWhitespace :: "string \<Rightarrow> bool" where
  "isTextWhitespace text = list_all IsSpace (runes text)"

definition cleanStyle :: "string \<Rightarrow> string" where
  "cleanStyle text =
     concat (map encodeRune (filter (\<lambda>v. v \<noteq> 0x0D \<and> v \<noteq> 0x0A \<and> v \<noteq> 0x09) (runes text)))"

fun renderAttributes :: "(nat \<Rightarrow> nat) \<Rightarrow> buffer \<Rightarrow> string \<Rightarrow> Attribute list \<Rightarrow> buffer" where
  "renderAttributes U w tag [] = w"
| "renderAttributes U w tag (a # as) =
     (if isElementAttributeRenderable U tag (Key a) then
        (let w1 = w @ '' '';
             w2 = (if Namespace a \<noteq> [] then w1 @ Namespace a @ '':'' else w1)
         in renderAttributes U (w2 @ Key a @ ''='' @ DQUOTE @ Val a @ DQUOTE) tag as)
      else renderAttributes U w tag as)"

definition renderStartTag :: "(nat \<Rightarrow> nat) \<Rightarrow> config \<Rightarrow> buffer \<Rightarrow> Node \<Rightarrow> outcome \<times> buffer" where
  "renderStartTag U cfg w n =
     (let w1 = w @ ''\<newline>'' @ ''<'' @ Data n;
          w2 = (if renderStyle cfg \<and> style (renderableHTML_at (Data n)) \<noteq> []
                then w1 @ cleanStyle ('' style='' @ DQUOTE @ style (renderableHTML_at (Data n))
                                        @ DQUOTE)
                else w1);
          w3 = renderAttributes U w2 (Data n) (Attr n)
      in
      if voidElements (Data n) then
        (if Children n \<noteq> [] then (Err (VoidElementHasChildren (Data n)), w3)
         else (Ok, w3 @ ''/>''))
      else (Ok, w3 @ ''>''))"

definition renderCloseTag :: "buffer \<Rightarrow> Node \<Rightarrow> buffer" where
  "renderCloseTag w n = w @ ''</'' @ Data n @ ''>''"

text \<open>
  \<open>render\<close> with its two loops over a chain of siblings: the one of the document node,
  and the one of an element, which skips a text child when \<open>isElementRenderable\<close> of the
  parent's tag says no at that moment. The state is the pair of global flags, handed on
  from call to call in the order in which the Go code runs.
\<close>

fun render :: "(nat \<Rightarrow> nat) \<Rightarrow> config \<Rightarrow> Node \<Rightarrow> state \<Rightarrow> buffer \<Rightarrow> outcome \<times> state \<times> buffer"
  and renderDocumentChildren ::
    "(nat \<Rightarrow> nat) \<Rightarrow> config \<Rightarrow> Node list \<Rightarrow> state \<Rightarrow> buffer \<Rightarrow> outcome \<times> state \<times> buffer"
  and renderElementChildren ::
    "(nat \<Rightarrow> nat) \<Rightarrow> config \<Rightarrow> string \<Rightarrow> Node list \<Rightarrow> state \<Rightarrow> buffer
       \<Rightarrow> outcome \<times> state \<times> buffer"
where
  "render U cfg (Node t d attr cs) st w =
     (case t of
        ErrorNode \<Rightarrow> (Err (ErrorNodeError d), st, w)
      | TextNode \<Rightarrow>
          (if \<not> isTextWhitespace d then
             (case escape w d of
                Inl p \<Rightarrow> (Panic p, st, w)
              | Inr w' \<Rightarrow> (Ok, st, w'))
           else (Ok, st, w))
      | DocumentNode \<Rightarrow> renderDocumentChildren U cfg cs st w
      | ElementNode \<Rightarrow>
          (let renderElement = fst (isElementRenderable U cfg d st);
               st1 = snd (isElementRenderable U cfg d st);
               started = (if renderElement then renderStartTag U cfg w (Node t d attr cs)
                          else (Ok, w))
           in
           if fst started \<noteq> Ok then (fst started, st1, snd started)
           else
             (let r = renderElementChildren U cfg d cs st1 (snd started) in
              if fst r \<noteq> Ok then r
              else if renderElement
                then (Ok, fst (snd r), renderCloseTag (snd (snd r)) (Node t d attr cs))
              else r))
      | CommentNode \<Rightarrow> (Ok, st, w)
      | DoctypeNode \<Rightarrow> (Ok, st, w @ ''<!DOCTYPE html>'')
      | RawNode \<Rightarrow> (Ok, st, w @ d)
      | OtherNode \<Rightarrow> (Err UnknownNodeType, st, w))"
| "renderDocumentChildren U cfg [] st w = (Ok, st, w)"
| "renderDocumentChildren U cfg (c # cs) st w =
     (let r = render U cfg c st w in
      if fst r \<noteq> Ok then r
      else renderDocumentChildren U cfg cs (fst (snd r)) (snd (snd r)))"
| "renderElementChildren U cfg parent [] st w = (Ok, st, w)"
| "renderElementChildren U cfg parent (c # cs) st w =
     (if Type c = TextNode \<and> \<not> fst (isElementRenderable U cfg parent st)
      then renderElementChildren U cfg parent cs (snd (isElementRenderable U cfg parent st)) w
      else
        (let st0 = (if Type c = TextNode then snd (isElementRenderable U cfg parent st) else st);
             r = render U cfg c st0 w
         in
         if fst r \<noteq> Ok then r
         else renderElementChildren U cfg parent cs (fst (snd r)) (snd (snd r))))"

section \<open>parse.go\<close>

text \<open>
  \<open>html.Parse\<close> belongs to golang.org/x/net/html; \<open>Parse\<close> stands for it: an error, or
  the document node of the tree. \<open>CleanHTML\<close> calls \<open>render\<close> as a statement and
  returns the content of the buffer with a \<open>nil\<close> error.
\<close>

datatype result = Returned string "error option" | Panicked string

definition CleanHTML ::
  "(nat \<Rightarrow> nat) \<Rightarrow> config \<Rightarrow> (string \<Rightarrow> error + Node) \<Rightarrow> string \<Rightarrow> state \<Rightarrow> result \<times> state" where
  "CleanHTML U cfg Parse data st =
     (case Parse data of
        Inl err \<Rightarrow> (Returned [] (Some err), st)
      | Inr docNodes \<Rightarrow>
          (let r = render U cfg docNodes st [] in
           case fst r of
             Panic p \<Rightarrow> (Panicked p, fst (snd r))
           | _ \<Rightarrow> (Returned (snd (snd r)) None, fst (snd r))))"

section \<open>The escaper as the specification words it\<close>

text \<open>
  One character at a time, from left to right: each of the six special characters is
  replaced by its entity, every other character stays as it is.
\<close>

definition escapeChar :: "char \<Rightarrow> string" where
  "escapeChar c =
     (if c = CHR ''&'' then ''&amp;''
      else if c = CHR 0x27 then ''&#39;''
      else if c = CHR ''<'' then ''&lt;''
      else if c = CHR ''>'' then ''&gt;''
      else if c = CHR 0x22 then ''&#34;''
      else if c = CHR 0x0D then ''&#13;''
      else [c])"

definition escape_spec :: "string \<Rightarrow> string" where
  "escape_spec s = concat (map escapeChar s)"

section \<open>The start tag as the specification words it\<close>

text \<open>
  The style attribute: when style injection is enabled and the policy declares a style
  that is not empty, \<open> style="..."\<close> with the style text stripped of every carriage
  return, newline and tab; nothing otherwise. The policy is the entry that
  \<open>renderStartTag\<close> reads, the one under the tag name as the node spells it.
\<close>

definition styleAttribute :: "config \<Rightarrow> string \<Rightarrow> string" where
  "styleAttribute cfg tag =
     (if renderStyle cfg \<and> style (renderableHTML_at tag) \<noteq> []
      then '' style='' @ DQUOTE
             @ filter (\<lambda>c. c \<noteq> CHR 0x0D \<and> c \<noteq> CHR 0x0A \<and> c \<noteq> CHR 0x09)
                 (style (renderableHTML_at tag))
             @ DQUOTE
      else [])"

text \<open>
  The whole start tag: a newline, \<open><\<close> and the tag name, the style attribute, the
  attributes that pass the filter, and \<open>/>\<close> for a void tag, \<open>>\<close> for any other.
\<close>

definition startTag_spec :: "(nat \<Rightarrow> nat) \<Rightarrow> config \<Rightarrow> Node \<Rightarrow> string" where
  "startTag_spec U cfg n =
     ''\<newline><'' @ Data n @ styleAttribute cfg (Data n)
       @ renderAttributes U [] (Data n) (Attr n)
       @ (if voidElements (Data n) then ''/>'' else ''>'')"


section \<open>The outcomes a render can have\<close>

text \<open>
  What \<open>render\<close> can come back with: no error, the error of an error node, the error
  of an unknown node type, or the void-element error for a tag that is void and has a
  policy. It does not panic, and it never returns a parse error.
\<close>

fun render_outcome :: "(nat \<Rightarrow> nat) \<Rightarrow> outcome \<Rightarrow> bool" where
  "render_outcome U Ok = True"
| "render_outcome U (Err (ErrorNodeError d)) = True"
| "render_outcome U (Err UnknownNodeType) = True"
| "render_outcome U (Err (VoidElementHasChildren tag)) =
     (voidElements tag \<and> renderableHTML (ToLower U tag) \<noteq> None)"
| "render_outcome U (Err (ParseError msg)) = False"
| "render_outcome U (Panic p) = False"

section \<open>Example documents\<close>

text \<open>
  A page with a navigation block between \<open><body>\<close> and the first \<open><h1>\<close>, as
  \<open>html.Parse\<close> builds it.
\<close>

definition example_page :: Node where
  "example_page =
     Node DocumentNode [] []
       [Node ElementNode ''html'' []
          [Node ElementNode ''head'' [] [],
           Node ElementNode ''body'' []
             [Node ElementNode ''div'' [] [Node TextNode ''menu'' [] []],
              Node ElementNode ''h1'' [] [Node TextNode ''Title'' [] []],
              Node ElementNode ''p'' [] [Node TextNode ''words'' [] []]]]]"

text \<open>
  A tree in which an element named \<open>col\<close> has a text child. The parser builds such a
  node for \<open><svg><col>x</col></svg>\<close>: inside foreign content the tag \<open>col\<close> is an
  ordinary element and keeps its children.
\<close>

definition example_col_with_child :: Node where
  "example_col_with_child =
     Node DocumentNode [] []
       [Node ElementNode ''html'' []
          [Node ElementNode ''head'' [] [],
           Node ElementNode ''body'' []
             [Node ElementNode ''svg'' []
                [Node ElementNode ''col'' [] [Node TextNode ''x'' [] []]]]]]"

definition canonical_config :: config where
  "canonical_config = \<lparr>renderCanonicalMode = True, renderStyle = False, renderLinks = True\<rparr>"

definition plain_config :: config where
  "plain_config = \<lparr>renderCanonicalMode = False, renderStyle = False, renderLinks = True\<rparr>"

definition nolinks_config :: config where
  "nolinks_config = \<lparr>renderCanonicalMode = False, renderStyle = True, renderLinks = False\<rparr>"

section \<open>Bytes, runes and ASCII strings\<close>

declare runes.simps [simp del] escape.simps [simp del]

lemma runes_Nil: "runes [] = []"
  by (simp add: runes.simps)

lemma runes_Cons:
  "runes (c # cs) =
     fst (decodeRune (c # cs)) # runes (drop (snd (decodeRune (c # cs))) (c # cs))"
  by (subst runes.simps) simp

lemma runes_ASCII: "isASCII s \<Longrightarrow> runes s = map byte s"
  by (induction s) (simp_all add: runes_Nil runes_Cons isASCII_def)

lemma encodeRune_byte: "byte c < 0x80 \<Longrightarrow> encodeRune (byte c) = [c]"
  by (simp add: encodeRune_def byte_def)

lemma byte_eq_iff: "byte c = byte d \<longleftrightarrow> c = d"
  by (simp add: byte_def)

lemma cleanStyle_ASCII:
  "isASCII s \<Longrightarrow>
   cleanStyle s = filter (\<lambda>c. c \<noteq> CHR 0x0D \<and> c \<noteq> CHR 0x0A \<and> c \<noteq> CHR 0x09) s"
proof (induction s)
  case Nil
  then show ?case by (simp add: cleanStyle_def runes_Nil)
next
  case (Cons c cs)
  then have asc: "isASCII cs" and c: "byte c < 0x80"
    by (simp_all add: isASCII_def)
  have r: "runes (c # cs) = byte c # runes cs"
    using c by (simp add: runes_Cons)
  have b: "byte c = 0x0D \<longleftrightarrow> c = CHR 0x0D" "byte c = 0x0A \<longleftrightarrow> c = CHR 0x0A"
    "byte c = 0x09 \<longleftrightarrow> c = CHR 0x09"
    using byte_eq_iff [of c "CHR 0x0D"] byte_eq_iff [of c "CHR 0x0A"]
      byte_eq_iff [of c "CHR 0x09"]
    by (simp_all add: byte_def)
  show ?case
    using Cons.IH [OF asc] c b by (simp add: cleanStyle_def r encodeRune_byte)
qed

lemma ToLower_ASCII: "isASCII s \<Longrightarrow> ToLower U s = map lowerASCII s"
  by (simp add: ToLower_def)

section \<open>The escaper\<close>

lemma IndexAny_None: "IndexAny s cs = None \<Longrightarrow> c \<in> set s \<Longrightarrow> c \<notin> set cs"
  by (induction s) (auto split: if_splits)

lemma IndexAny_Some:
  "IndexAny s cs = Some i \<Longrightarrow>
   i < length s \<and> s ! i \<in> set cs \<and> (\<forall>c \<in> set (take i s). c \<notin> set cs)"
proof (induction s arbitrary: i)
  case Nil
  then show ?case by simp
next
  case (Cons a s)
  show ?case
  proof (cases "a \<in> set cs")
    case True
    with Cons.prems show ?thesis by simp
  next
    case False
    with Cons.prems obtain j where j: "IndexAny s cs = Some j" "i = Suc j"
      by auto
    from Cons.IH [OF j(1)] False j(2) show ?thesis by simp
  qed
qed

lemma escapeChar_other: "c \<notin> set escapedChars \<Longrightarrow> escapeChar c = [c]"
  by (simp add: escapedChars_def escapeChar_def)

lemma escapeSwitch_escaped: "c \<in> set escapedChars \<Longrightarrow> escapeSwitch c = Some (escapeChar c)"
  by (auto simp: escapedChars_def escapeChar_def escapeSwitch_def)

lemma escape_spec_other: "\<forall>c \<in> set s. c \<notin> set escapedChars \<Longrightarrow> escape_spec s = s"
  by (induction s) (simp_all add: escape_spec_def escapeChar_other)

lemma escape_total: "escape w s = Inr (w @ escape_spec s)"
proof (induction w s rule: escape.induct)
  case (1 w s)
  show ?case
  proof (cases "IndexAny s escapedChars")
    case None
    then have "escape_spec s = s"
      by (intro escape_spec_other) (auto dest: IndexAny_None)
    with None show ?thesis by (subst escape.simps) simp
  next
    case (Some i)
    from IndexAny_Some [OF Some]
    have i: "i < length s" and hit: "s ! i \<in> set escapedChars"
      and pre: "\<forall>c \<in> set (take i s). c \<notin> set escapedChars" by auto
    have sw: "escapeSwitch (s ! i) = Some (escapeChar (s ! i))"
      using hit by (rule escapeSwitch_escaped)
    have split: "s = take i s @ (s ! i) # drop (Suc i) s"
      using i by (simp add: id_take_nth_drop)
    have "escape_spec s =
            escape_spec (take i s) @ escapeChar (s ! i) @ escape_spec (drop (Suc i) s)"
      by (subst split) (simp add: escape_spec_def)
    also have "escape_spec (take i s) = take i s"
      using pre by (rule escape_spec_other)
    finally have spec:
      "escape_spec s = take i s @ escapeChar (s ! i) @ escape_spec (drop (Suc i) s)" .
    have "escape w s = escape (w @ take i s @ escapeChar (s ! i)) (drop (Suc i) s)"
      by (subst escape.simps) (simp add: Some sw)
    also have "\<dots> = Inr ((w @ take i s @ escapeChar (s ! i)) @ escape_spec (drop (Suc i) s))"
      using "1.IH" [OF Some sw] .
    finally show ?thesis by (simp add: spec)
  qed
qed

section \<open>The policy table\<close>

lemma entries_style_ASCII: "\<forall>x \<in> set renderableHTML_entries. isASCII (style (snd x))"
  by (simp add: renderableHTML_entries_def isASCII_def byte_def)

lemma entries_no_style_attribute:
  "\<forall>x \<in> set renderableHTML_entries. ''style'' \<notin> set (attributes (snd x))"
  by (simp add: renderableHTML_entries_def)

lemma renderableHTML_entry:
  "renderableHTML k = Some e \<Longrightarrow> (k, e) \<in> set renderableHTML_entries"
  by (auto simp: renderableHTML_def dest: map_of_SomeD)

lemma style_ASCII: "isASCII (style (renderableHTML_at k))"
proof (cases "renderableHTML k")
  case None
  then show ?thesis by (simp add: renderableHTML_at_def isASCII_def)
next
  case (Some e)
  from renderableHTML_entry [OF Some] entries_style_ASCII
  have "isASCII (style e)" by fastforce
  with Some show ?thesis by (simp add: renderableHTML_at_def)
qed






section \<open>The renderability decision\<close>

lemma isElementRenderable_unknown:
  "renderableHTML (ToLower U node) = None \<Longrightarrow> isElementRenderable U cfg node st = (False, st)"
  by (simp add: isElementRenderable_def Let_def)

lemma isElementRenderable_link:
  "\<not> renderLinks cfg \<Longrightarrow> ToLower U node = ''a'' \<Longrightarrow>
   isElementRenderable U cfg node st = (False, st)"
  by (simp add: isElementRenderable_def Let_def)

lemma isElementRenderable_in_table:
  "fst (isElementRenderable U cfg node st) \<Longrightarrow> renderableHTML (ToLower U node) \<noteq> None"
  by (auto simp: isElementRenderable_def Let_def split: if_splits)

lemmas tag_simps = ToLower_ASCII isASCII_def byte_def lowerASCII_def renderableHTML_def
  renderableHTML_entries_def isElementRenderable_def Let_def

section \<open>The start tag\<close>

lemma renderAttributes_buffer: "renderAttributes U w tag as = w @ renderAttributes U [] tag as"
proof (induction as arbitrary: w)
  case Nil
  then show ?case by simp
next
  case (Cons a as)
  show ?case
  proof (cases "isElementAttributeRenderable U tag (Key a)")
    case False
    then show ?thesis using Cons.IH [of w] by simp
  next
    case True
    define piece where
      "piece = '' '' @ (if Namespace a \<noteq> [] then Namespace a @ '':'' else [])
                 @ Key a @ ''='' @ DQUOTE @ Val a @ DQUOTE"
    have step: "renderAttributes U x tag (a # as) = renderAttributes U (x @ piece) tag as" for x
      using True by (simp add: Let_def piece_def)
    have "renderAttributes U w tag (a # as) = (w @ piece) @ renderAttributes U [] tag as"
      unfolding step by (rule Cons.IH)
    also have "\<dots> = w @ renderAttributes U ([] @ piece) tag as"
      using Cons.IH [of "[] @ piece"] by simp
    finally show ?thesis unfolding step [of "[]", symmetric] .
  qed
qed

lemma renderAttributes_buffer_ne:
  "w \<noteq> [] \<Longrightarrow> renderAttributes U w tag as = w @ renderAttributes U [] tag as"
  by (rule renderAttributes_buffer)

lemma cleanStyle_attribute:
  "cleanStyle ('' style='' @ DQUOTE @ style (renderableHTML_at tag) @ DQUOTE) =
     '' style='' @ DQUOTE
       @ filter (\<lambda>c. c \<noteq> CHR 0x0D \<and> c \<noteq> CHR 0x0A \<and> c \<noteq> CHR 0x09)
           (style (renderableHTML_at tag))
       @ DQUOTE"
proof -
  have "isASCII ('' style='' @ DQUOTE @ style (renderableHTML_at tag) @ DQUOTE)"
    using style_ASCII [of tag] by (simp add: isASCII_def byte_def)
  then show ?thesis by (simp add: cleanStyle_ASCII)
qed

lemma renderStartTag_text:
  "renderStartTag U cfg w n =
     (if voidElements (Data n) \<and> Children n \<noteq> []
      then Err (VoidElementHasChildren (Data n)) else Ok,
      w @ ''\<newline><'' @ Data n @ styleAttribute cfg (Data n)
        @ renderAttributes U [] (Data n) (Attr n)
        @ (if voidElements (Data n) then (if Children n \<noteq> [] then [] else ''/>'')
           else ''>''))"
  unfolding renderStartTag_def Let_def cleanStyle_attribute
  by (simp add: renderAttributes_buffer_ne styleAttribute_def)

lemma renderStartTag_Ok:
  "fst (renderStartTag U cfg w n) = Ok \<Longrightarrow>
   renderStartTag U cfg w n = (Ok, w @ startTag_spec U cfg n)"
  by (auto simp: renderStartTag_text startTag_spec_def split: if_splits)



lemmas start_simps = renderStartTag_text styleAttribute_def renderableHTML_at_def
  voidElements_def isElementAttributeRenderable_def renderCloseTag_def

section \<open>The renderer only appends to the buffer\<close>

text \<open>
  A call of \<open>render\<close> or of one of its loops appends a fixed text to whatever the
  buffer holds, and its outcome and final state do not depend on the buffer.
\<close>

lemma render_appends:
  fixes w :: buffer
  shows "\<exists>r st' out. render_outcome U r
            \<and> (\<forall>w'. render U cfg n st w' = (r, st', w' @ out))"
    and renderDocumentChildren_appends:
    "\<exists>r st' out. render_outcome U r
       \<and> (\<forall>w'. renderDocumentChildren U cfg ns st w' = (r, st', w' @ out))"
    and renderElementChildren_appends:
    "\<exists>r st' out. render_outcome U r
       \<and> (\<forall>w'. renderElementChildren U cfg parent ns st w' = (r, st', w' @ out))"
proof (induction U cfg n st w and U cfg ns st w and U cfg parent ns st w
    rule: render_renderDocumentChildren_renderElementChildren.induct)
  case (1 U cfg t d attr cs st w)
  show ?case
  proof (cases t)
    case ErrorNode
    then have "render_outcome U (Err (ErrorNodeError d))
        \<and> (\<forall>w'. render U cfg (Node t d attr cs) st w' = (Err (ErrorNodeError d), st, w' @ []))"
      by simp
    then show ?thesis by blast
  next
    case TextNode
    then have "render_outcome U Ok
        \<and> (\<forall>w'. render U cfg (Node t d attr cs) st w' =
               (Ok, st, w' @ (if isTextWhitespace d then [] else escape_spec d)))"
      by (simp add: escape_total)
    then show ?thesis by blast
  next
    case DocumentNode
    with "1.IH"(1) show ?thesis by simp
  next
    case ElementNode
    define n where "n = Node t d attr cs"
    define st1 where "st1 = snd (isElementRenderable U cfg d st)"
    show ?thesis
    proof (cases "fst (isElementRenderable U cfg d st)")
      case False
      from "1.IH"(2) [OF ElementNode refl refl refl] False
      obtain r st' out where ro: "render_outcome U r" and
        "\<forall>w'. renderElementChildren U cfg d cs st1 w' = (r, st', w' @ out)"
        by (auto simp: st1_def)
      then have "\<forall>w'. render U cfg (Node t d attr cs) st w' = (r, st', w' @ out)"
        using False ElementNode by (simp add: st1_def Let_def)
      with ro show ?thesis by blast
    next
      case True
      define tagtext where
        "tagtext = ''\<newline><'' @ Data n @ styleAttribute cfg (Data n)
                 @ renderAttributes U [] (Data n) (Attr n)
                 @ (if voidElements (Data n) then (if Children n \<noteq> [] then [] else ''/>'')
                    else ''>'')"
      define status where
        "status = (if voidElements (Data n) \<and> Children n \<noteq> []
                   then Err (VoidElementHasChildren (Data n)) else Ok)"
      have start: "renderStartTag U cfg w' n = (status, w' @ tagtext)" for w'
        by (simp add: renderStartTag_text tagtext_def status_def)
      have so: "render_outcome U status"
        using isElementRenderable_in_table [OF True] by (simp add: status_def n_def)
      show ?thesis
      proof (cases "status = Ok")
        case False
        then have "\<forall>w'. render U cfg (Node t d attr cs) st w' = (status, st1, w' @ tagtext)"
          using True ElementNode start by (simp add: st1_def Let_def n_def)
        with so show ?thesis by blast
      next
        case ok: True
        have "fst (if fst (isElementRenderable U cfg d st)
                   then renderStartTag U cfg w (Node t d attr cs) else (Ok, w)) = Ok"
          using True start [of w] ok by (simp add: n_def)
        with "1.IH"(2) [OF ElementNode refl refl refl]
        obtain r st' out where ro: "render_outcome U r" and
          ch: "\<forall>w'. renderElementChildren U cfg d cs st1 w' = (r, st', w' @ out)"
          by (auto simp: st1_def)
        have "\<forall>w'. render U cfg (Node t d attr cs) st w' =
                (r, st', w' @ tagtext @ out @ (if r = Ok then ''</'' @ d @ ''>'' else []))"
          using True ElementNode start ok ch
          by (simp add: st1_def Let_def n_def renderCloseTag_def)
        with ro show ?thesis by blast
      qed
    qed
  next
    case CommentNode
    then have "render_outcome U Ok
        \<and> (\<forall>w'. render U cfg (Node t d attr cs) st w' = (Ok, st, w' @ []))"
      by simp
    then show ?thesis by blast
  next
    case DoctypeNode
    then have "render_outcome U Ok
        \<and> (\<forall>w'. render U cfg (Node t d attr cs) st w' = (Ok, st, w' @ ''<!DOCTYPE html>''))"
      by simp
    then show ?thesis by blast
  next
    case RawNode
    then have "render_outcome U Ok
        \<and> (\<forall>w'. render U cfg (Node t d attr cs) st w' = (Ok, st, w' @ d))"
      by simp
    then show ?thesis by blast
  next
    case OtherNode
    then have "render_outcome U (Err UnknownNodeType)
        \<and> (\<forall>w'. render U cfg (Node t d attr cs) st w' = (Err UnknownNodeType, st, w' @ []))"
      by simp
    then show ?thesis by blast
  qed
next
  case (2 U cfg st w)
  have "render_outcome U Ok \<and> (\<forall>w'. renderDocumentChildren U cfg [] st w' = (Ok, st, w' @ []))"
    by simp
  then show ?case by blast
next
  case (3 U cfg c cs st w)
  from "3.IH"(1) obtain r1 st1 o1 where ro1: "render_outcome U r1" and
    c: "\<forall>w'. render U cfg c st w' = (r1, st1, w' @ o1)" by blast
  show ?case
  proof (cases "r1 = Ok")
    case False
    with c have "\<forall>w'. renderDocumentChildren U cfg (c # cs) st w' = (r1, st1, w' @ o1)"
      by (simp add: Let_def)
    with ro1 show ?thesis by blast
  next
    case True
    with c "3.IH"(2) [OF refl] obtain r2 st2 o2 where ro2: "render_outcome U r2" and
      cs: "\<forall>w'. renderDocumentChildren U cfg cs st1 w' = (r2, st2, w' @ o2)"
      by auto
    with c True
    have "\<forall>w'. renderDocumentChildren U cfg (c # cs) st w' = (r2, st2, w' @ o1 @ o2)"
      by (simp add: Let_def)
    with ro2 show ?thesis by blast
  qed
next
  case (4 U cfg parent st w)
  have "render_outcome U Ok
      \<and> (\<forall>w'. renderElementChildren U cfg parent [] st w' = (Ok, st, w' @ []))"
    by simp
  then show ?case by blast
next
  case (5 U cfg parent c cs st w)
  define skip where
    "skip \<longleftrightarrow> Type c = TextNode \<and> \<not> fst (isElementRenderable U cfg parent st)"
  define st0 where
    "st0 = (if Type c = TextNode then snd (isElementRenderable U cfg parent st) else st)"
  show ?case
  proof (cases skip)
    case True
    with "5.IH"(1) obtain r st' out where ro: "render_outcome U r" and
      "\<forall>w'. renderElementChildren U cfg parent cs
               (snd (isElementRenderable U cfg parent st)) w' = (r, st', w' @ out)"
      by (auto simp: skip_def)
    with True have "\<forall>w'. renderElementChildren U cfg parent (c # cs) st w' = (r, st', w' @ out)"
      by (simp add: skip_def)
    with ro show ?thesis by blast
  next
    case False
    then have ns: "\<not> (Type c = TextNode \<and> \<not> fst (isElementRenderable U cfg parent st))"
      by (simp add: skip_def)
    have step: "renderElementChildren U cfg parent (c # cs) st w' =
        (let r = render U cfg c st0 w' in
         if fst r \<noteq> Ok then r
         else renderElementChildren U cfg parent cs (fst (snd r)) (snd (snd r)))" for w'
      using ns by (cases "Type c = TextNode") (simp_all add: st0_def Let_def)
    from "5.IH"(2) [OF ns refl] obtain r1 st1 o1 where ro1: "render_outcome U r1" and
      c: "\<forall>w'. render U cfg c st0 w' = (r1, st1, w' @ o1)"
      unfolding st0_def by blast
    show ?thesis
    proof (cases "r1 = Ok")
      case nok: False
      with c
      have "\<forall>w'. renderElementChildren U cfg parent (c # cs) st w' = (r1, st1, w' @ o1)"
        by (simp add: step del: renderElementChildren.simps)
      with ro1 show ?thesis by blast
    next
      case True
      have "fst (render U cfg c st0 w) = Ok" "fst (snd (render U cfg c st0 w)) = st1"
        using c True by simp_all
      with "5.IH"(3) [OF ns refl refl] obtain r2 st2 o2 where ro2: "render_outcome U r2" and
        cs: "\<forall>w'. renderElementChildren U cfg parent cs st1 w' = (r2, st2, w' @ o2)"
        unfolding st0_def by auto
      with c True
      have "\<forall>w'. renderElementChildren U cfg parent (c # cs) st w' = (r2, st2, w' @ o1 @ o2)"
        by (simp add: step del: renderElementChildren.simps)
      with ro2 show ?thesis by blast
    qed
  qed
qed

lemma renderElementChildren_from_empty:
  "renderElementChildren U cfg parent ns st w =
     (fst (renderElementChildren U cfg parent ns st []),
      fst (snd (renderElementChildren U cfg parent ns st [])),
      w @ snd (snd (renderElementChildren U cfg parent ns st [])))"
proof -
  from renderElementChildren_appends [of U cfg parent ns st] obtain r st' out where
    a: "\<forall>w'. renderElementChildren U cfg parent ns st w' = (r, st', w' @ out)" by blast
  from a [rule_format, of w] a [rule_format, of "[]"] show ?thesis by simp
qed

lemma render_outcome_render: "render_outcome U (fst (render U cfg n st w))"
proof -
  obtain r st' out where
    "render_outcome U r" and "\<forall>w'. render U cfg n st w' = (r, st', w' @ out)"
    using render_appends(1) [of U cfg n st] by blast
  then show ?thesis by simp
qed

text \<open>
  Whatever the tree, \<open>render\<close> does not panic, and \<open>CleanHTML\<close> returns a \<open>nil\<close>
  error once the parser has produced a tree.
\<close>

lemma render_no_panic: "fst (render U cfg n st w) \<noteq> Panic p"
  using render_outcome_render [of U cfg n st w] by (cases "fst (render U cfg n st w)") auto

lemma CleanHTML_error_is_nil:
  assumes "Parse data = Inr docNodes"
  shows "CleanHTML U cfg Parse data st =
           (Returned (snd (snd (render U cfg docNodes st []))) None,
            fst (snd (render U cfg docNodes st [])))"
  using assms render_no_panic [of U cfg docNodes st "[]"]
  by (cases "fst (render U cfg docNodes st [])") (auto simp: CleanHTML_def Let_def)

section \<open>Elements that are not renderable\<close>

lemma renderElementChildren_not_renderable:
  assumes "\<And>st. isElementRenderable U cfg parent st = (False, st)"
  shows "renderElementChildren U cfg parent cs st w =
           renderDocumentChildren U cfg (filter (\<lambda>c. Type c \<noteq> TextNode) cs) st w"
  by (induction cs arbitrary: st w) (simp_all add: assms Let_def)

lemma render_not_renderable:
  assumes "\<And>st. isElementRenderable U cfg d st = (False, st)"
  shows "render U cfg (Node ElementNode d attr cs) st w =
           renderDocumentChildren U cfg (filter (\<lambda>c. Type c \<noteq> TextNode) cs) st w"
  using renderElementChildren_not_renderable [OF assms, of cs st w]
  by (simp add: assms Let_def)

lemma render_no_void_error_without_policy:
  assumes "renderableHTML (ToLower U tag) = None"
  shows "fst (render U cfg n st w) \<noteq> Err (VoidElementHasChildren tag)"
  using render_outcome_render [of U cfg n st w] assms by auto

section \<open>The claims\<close>

text \<open>
  Claim C6. For every input string and every content of the buffer, \<open>escape\<close> returns
  without a panic and has appended the input with each \<open>&\<close>, apostrophe, \<open><\<close>, \<open>>\<close>,
  double quote and carriage return replaced by \<open>&amp;\<close>, \<open>&#39;\<close>, \<open>&lt;\<close>, \<open>&gt;\<close>,
  \<open>&#34;\<close> and \<open>&#13;\<close>, character by character from left to right; every other byte
  (newline, tab and the bytes of non-ASCII text among them) is appended unchanged.
\<close>

theorem escape_refines_spec:
  "escape w s = Inr (w @ concat (map escapeChar s))"
  using escape_total [of w s] by (simp add: escape_spec_def)

text \<open>
  Claim C8. For every tag name whose lower-case form is not a key of the policy table,
  \<open>isElementRenderable\<close> returns \<open>false\<close> and leaves both flags of the traversal
  state as they were, whatever the configuration.
\<close>

theorem isElementRenderable_unknown_tag:
  "renderableHTML (ToLower U node) = None \<Longrightarrow> isElementRenderable U cfg node st = (False, st)"
  by (rule isElementRenderable_unknown)

theorem isElementRenderable_unknown_tag_witness:
  "renderableHTML (ToLower (\<lambda>r. r) ''script'') = None
   \<and> isElementRenderable (\<lambda>r. r) canonical_config ''script'' initial_state
       = (False, initial_state)"
proof -
  have h: "renderableHTML (ToLower (\<lambda>r. r) ''script'') = None"
    by (simp add: tag_simps)
  from h isElementRenderable_unknown_tag [OF h] show ?thesis by blast
qed

text \<open>
  Claim C5. With canonical mode enabled and both flags \<open>false\<close> at the start, the tags
  \<open>body\<close>, \<open>div\<close>, \<open>h1\<close>, \<open>p\<close> evaluated one after the other give: \<open>body\<close> renderable,
  and \<open>encounteredBodyElement\<close> set; \<open>div\<close> not renderable; \<open>h1\<close> renderable, and
  \<open>encounteredFirstH1Element\<close> set; \<open>p\<close> renderable. Each call starts from the state the
  call before it has left.
\<close>

theorem canonical_mode_sequence:
  "isElementRenderable U (cfg\<lparr>renderCanonicalMode := True\<rparr>) ''body''
      \<lparr>encounteredBodyElement = False, encounteredFirstH1Element = False\<rparr>
    = (True, \<lparr>encounteredBodyElement = True, encounteredFirstH1Element = False\<rparr>)
  \<and> isElementRenderable U (cfg\<lparr>renderCanonicalMode := True\<rparr>) ''div''
      \<lparr>encounteredBodyElement = True, encounteredFirstH1Element = False\<rparr>
    = (False, \<lparr>encounteredBodyElement = True, encounteredFirstH1Element = False\<rparr>)
  \<and> isElementRenderable U (cfg\<lparr>renderCanonicalMode := True\<rparr>) ''h1''
      \<lparr>encounteredBodyElement = True, encounteredFirstH1Element = False\<rparr>
    = (True, \<lparr>encounteredBodyElement = True, encounteredFirstH1Element = True\<rparr>)
  \<and> isElementRenderable U (cfg\<lparr>renderCanonicalMode := True\<rparr>) ''p''
      \<lparr>encounteredBodyElement = True, encounteredFirstH1Element = True\<rparr>
    = (True, \<lparr>encounteredBodyElement = True, encounteredFirstH1Element = True\<rparr>)"
  by (simp add: tag_simps)




text \<open>
  Claim C7. A \<open>br\<close> element without children, rendered with canonical mode off, comes
  out as a newline, the self-closed tag \<open><br/>\<close> and then a closing tag \<open></br>\<close>: the
  render does not stop after the self-closed tag. A \<open>br\<close> element with a child makes the
  render return the void-element error, after \<open><br\<close> has been written.
\<close>

theorem void_element_is_closed_twice:
  "render U (cfg\<lparr>renderCanonicalMode := False\<rparr>) (Node ElementNode ''br'' [] []) st w
     = (Ok, st, w @ ''\<newline><br/></br>'')
   \<and> render U (cfg\<lparr>renderCanonicalMode := False\<rparr>) (Node ElementNode ''br'' [] [c]) st w
     = (Err (VoidElementHasChildren ''br''), st, w @ ''\<newline><br'')"
  by (simp add: tag_simps start_simps)

text \<open>
  Claim C1. The document of \<open><svg><col>x</col></svg>\<close> holds a renderable void element
  with a child. \<open>render\<close> stops at it and returns the void-element error to \<open>CleanHTML\<close>,
  with the output up to \<open><col\<close> in the buffer. \<open>CleanHTML\<close> does not look at the
  returned error: it returns the content of the buffer together with a \<open>nil\<close> error.
\<close>

theorem CleanHTML_drops_render_error:
  "render (\<lambda>r. r) plain_config example_col_with_child initial_state []
     = (Err (VoidElementHasChildren ''col''), initial_state,
        ''\<newline><html>\<newline><head></head>\<newline><body>\<newline><col'')
   \<and> CleanHTML (\<lambda>r. r) plain_config (\<lambda>data. Inr example_col_with_child)
         ''<svg><col>x</col></svg>'' initial_state
     = (Returned ''\<newline><html>\<newline><head></head>\<newline><body>\<newline><col'' None,
        initial_state)"
  by code_simp

text \<open>
  Claim C2. In canonical mode the same document is rendered twice in a row by
  \<open>CleanHTML\<close>, the second call starting from the flags the first one has left. The first
  output has no \<open>div\<close> block before the heading, the second one has it: no call resets
  the flags, and after the first render both are \<open>true\<close>.
\<close>

theorem second_render_differs:
  "CleanHTML (\<lambda>r. r) canonical_config (\<lambda>data. Inr example_page) [] initial_state
     = (Returned (''\<newline><html>\<newline><head></head>\<newline><body>''
                  @ ''\<newline><h1>Title</h1>\<newline><p>words</p></body></html>'') None,
        \<lparr>encounteredBodyElement = True, encounteredFirstH1Element = True\<rparr>)
   \<and> CleanHTML (\<lambda>r. r) canonical_config (\<lambda>data. Inr example_page) []
         \<lparr>encounteredBodyElement = True, encounteredFirstH1Element = True\<rparr>
     = (Returned (''\<newline><html>\<newline><head></head>\<newline><body>\<newline><div>menu</div>''
                  @ ''\<newline><h1>Title</h1>\<newline><p>words</p></body></html>'') None,
        \<lparr>encounteredBodyElement = True, encounteredFirstH1Element = True\<rparr>)"
  by code_simp

text \<open>
  Claim C3, as the specification states it, fails: with link rendering disabled,
  \<open><a href="x">text</a>\<close> produces no output at all. The tag is not written, and the
  text child is skipped because its parent \<open>a\<close> is not renderable.
\<close>

theorem suppressed_link_text_counterexample:
  "render (\<lambda>r. r) nolinks_config
     (Node ElementNode ''a'' [\<lparr>Namespace = [], Key = ''href'', Val = ''x''\<rparr>]
        [Node TextNode ''text'' [] []])
     initial_state []
   = (Ok, initial_state, [])"
  by code_simp

text \<open>
  Claim C3, amended. With link rendering disabled, an element whose tag is \<open>a\<close> in
  lower case writes neither a start tag nor a close tag and leaves the flags alone; its
  text children are skipped, and its other children are rendered in source order, as
  the children of the document node are.
\<close>

theorem suppressed_link_children:
  assumes "\<not> renderLinks cfg" and "ToLower U d = ''a''"
  shows "render U cfg (Node ElementNode d attr cs) st w =
           renderDocumentChildren U cfg (filter (\<lambda>c. Type c \<noteq> TextNode) cs) st w"
  by (rule render_not_renderable) (rule isElementRenderable_link [OF assms])

theorem suppressed_link_children_witness:
  "\<not> renderLinks nolinks_config \<and> ToLower (\<lambda>r. r) ''a'' = ''a''
   \<and> render (\<lambda>r. r) nolinks_config
         (Node ElementNode ''a'' [\<lparr>Namespace = [], Key = ''href'', Val = ''x''\<rparr>]
            [Node TextNode ''text'' [] [],
             Node ElementNode ''b'' [] [Node TextNode ''bold'' [] []]])
         initial_state []
       = (Ok, initial_state, ''\<newline><b>bold</b>'')"
proof -
  have h1: "\<not> renderLinks nolinks_config"
    by (simp add: nolinks_config_def)
  have h2: "ToLower (\<lambda>r. r) ''a'' = ''a''"
    by (simp add: tag_simps)
  have rest: "renderDocumentChildren (\<lambda>r. r) nolinks_config
        (filter (\<lambda>c. Type c \<noteq> TextNode)
           [Node TextNode ''text'' [] [],
            Node ElementNode ''b'' [] [Node TextNode ''bold'' [] []]])
        initial_state []
      = (Ok, initial_state, ''\<newline><b>bold</b>'')"
    by code_simp
  from suppressed_link_children [OF h1 h2] rest
  have "render (\<lambda>r. r) nolinks_config
         (Node ElementNode ''a'' [\<lparr>Namespace = [], Key = ''href'', Val = ''x''\<rparr>]
            [Node TextNode ''text'' [] [],
             Node ElementNode ''b'' [] [Node TextNode ''bold'' [] []]])
         initial_state []
       = (Ok, initial_state, ''\<newline><b>bold</b>'')"
    by (rule trans)
  with h1 h2 show ?thesis by blast
qed

text \<open>
  Claim C4, as the specification states it, fails: when the render stops at an error
  inside an element, the start tag of the element is in the output and its closing tag
  is not. Here the output is \<open><p>\<close> after a newline, and nothing else.
\<close>

theorem unclosed_start_tag_counterexample:
  "render (\<lambda>r. r) plain_config
     (Node ElementNode ''p'' [] [Node ErrorNode ''bad'' [] []]) initial_state []
   = (Err (ErrorNodeError ''bad''), initial_state, ''\<newline><p>'')"
  by code_simp

text \<open>
  Claim C4, amended. When the render of an element returns without an error, what it has
  appended to the buffer is the output of its children, with the start tag before it and
  the closing tag \<open></tagName>\<close> after it when \<open>isElementRenderable\<close> said yes for
  the element, and with neither of the two when it said no.
\<close>

theorem close_tag_iff_start_tag:
  assumes r: "render U cfg (Node ElementNode d attr cs) st w = (Ok, st', w')"
  shows "\<exists>mid.
           renderElementChildren U cfg d cs (snd (isElementRenderable U cfg d st)) []
             = (Ok, st', mid)
           \<and> w' = w @ (if fst (isElementRenderable U cfg d st)
                        then startTag_spec U cfg (Node ElementNode d attr cs) else [])
                     @ mid
                     @ (if fst (isElementRenderable U cfg d st)
                        then ''</'' @ d @ ''>'' else [])"
proof -
  define n where "n = Node ElementNode d attr cs"
  define st1 where "st1 = snd (isElementRenderable U cfg d st)"
  define R where "R = renderElementChildren U cfg d cs st1 []"
  have ch: "renderElementChildren U cfg d cs st1 x = (fst R, fst (snd R), x @ snd (snd R))"
    for x
    unfolding R_def by (rule renderElementChildren_from_empty)
  show ?thesis
  proof (cases "fst (isElementRenderable U cfg d st)")
    case False
    with r have "renderElementChildren U cfg d cs st1 w = (Ok, st', w')"
      by (simp add: st1_def Let_def split: if_splits)
    with ch [of w] have "fst R = Ok" "fst (snd R) = st'" "w' = w @ snd (snd R)"
      by simp_all
    then have "R = (Ok, st', snd (snd R)) \<and> w' = w @ snd (snd R)"
      by (metis prod.collapse)
    with False show ?thesis
      unfolding R_def st1_def by auto
  next
    case True
    have started: "fst (renderStartTag U cfg w n) = Ok"
    proof (rule ccontr)
      assume "fst (renderStartTag U cfg w n) \<noteq> Ok"
      with r True show False by (simp add: Let_def n_def)
    qed
    from renderStartTag_Ok [OF started]
    have s: "renderStartTag U cfg w n = (Ok, w @ startTag_spec U cfg n)" .
    define x where "x = w @ startTag_spec U cfg n"
    have "render U cfg (Node ElementNode d attr cs) st w =
        (let r = renderElementChildren U cfg d cs st1 x in
         if fst r \<noteq> Ok then r
         else (Ok, fst (snd r), renderCloseTag (snd (snd r)) n))"
      using True s by (simp add: Let_def n_def st1_def x_def)
    then have "render U cfg (Node ElementNode d attr cs) st w =
        (if fst R \<noteq> Ok then (fst R, fst (snd R), x @ snd (snd R))
         else (Ok, fst (snd R), renderCloseTag (x @ snd (snd R)) n))"
      by (simp add: ch Let_def)
    with r
    have body: "(if fst R \<noteq> Ok then (fst R, fst (snd R), x @ snd (snd R))
           else (Ok, fst (snd R), renderCloseTag (x @ snd (snd R)) n)) = (Ok, st', w')"
      by simp
    then have ok: "fst R = Ok"
      by (auto split: if_splits)
    with body have "fst (snd R) = st'" "w' = x @ snd (snd R) @ ''</'' @ d @ ''>''"
      by (simp_all add: renderCloseTag_def n_def)
    with ok have "R = (Ok, st', snd (snd R))
        \<and> w' = w @ startTag_spec U cfg n @ snd (snd R) @ ''</'' @ d @ ''>''"
      by (metis append.assoc prod.collapse x_def)
    with True show ?thesis
      unfolding R_def st1_def n_def by auto
  qed
qed

theorem close_tag_iff_start_tag_witness:
  "render (\<lambda>r. r) plain_config
      (Node ElementNode ''p'' [] [Node TextNode ''hi'' [] []]) initial_state []
     = (Ok, initial_state, ''\<newline><p>hi</p>'')
   \<and> (\<exists>mid.
         renderElementChildren (\<lambda>r. r) plain_config ''p'' [Node TextNode ''hi'' [] []]
             (snd (isElementRenderable (\<lambda>r. r) plain_config ''p'' initial_state)) []
           = (Ok, initial_state, mid)
         \<and> ''\<newline><p>hi</p>'' =
             [] @ (if fst (isElementRenderable (\<lambda>r. r) plain_config ''p'' initial_state)
                   then startTag_spec (\<lambda>r. r) plain_config
                          (Node ElementNode ''p'' [] [Node TextNode ''hi'' [] []])
                   else [])
                @ mid
                @ (if fst (isElementRenderable (\<lambda>r. r) plain_config ''p'' initial_state)
                   then ''</'' @ ''p'' @ ''>'' else []))"
proof -
  have h: "render (\<lambda>r. r) plain_config
      (Node ElementNode ''p'' [] [Node TextNode ''hi'' [] []]) initial_state []
     = (Ok, initial_state, ''\<newline><p>hi</p>'')"
    by code_simp
  from h close_tag_iff_start_tag [OF h] show ?thesis by blast
qed

text \<open>
  Claim C10. An element that \<open>isElementRenderable\<close> judges not renderable is never
  handed to \<open>renderStartTag\<close>, so the check for children of a void element is not made
  for it: its render is the loop over its children, in source order, and nothing else.
  That holds for a void tag without a policy (\<open>img\<close>, for one) and for a void tag with
  a policy that canonical mode suppresses (\<open>col\<close> between \<open><body>\<close> and the first
  \<open><h1>\<close>). For a tag without a policy the loop skips the text children and renders the
  others as the document node renders its children, and the render never ends with the
  void-element error for that tag.
\<close>

theorem void_check_only_when_renderable:
  assumes "\<not> fst (isElementRenderable U cfg d st)"
  shows "render U cfg (Node ElementNode d attr cs) st w =
           renderElementChildren U cfg d cs (snd (isElementRenderable U cfg d st)) w
         \<and> (renderableHTML (ToLower U d) = None \<longrightarrow>
              render U cfg (Node ElementNode d attr cs) st w =
                renderDocumentChildren U cfg (filter (\<lambda>c. Type c \<noteq> TextNode) cs) st w
              \<and> fst (render U cfg (Node ElementNode d attr cs) st w)
                  \<noteq> Err (VoidElementHasChildren d))"
proof (intro conjI impI)
  show "render U cfg (Node ElementNode d attr cs) st w =
          renderElementChildren U cfg d cs (snd (isElementRenderable U cfg d st)) w"
    using assms by (simp add: Let_def)
next
  assume none: "renderableHTML (ToLower U d) = None"
  show "render U cfg (Node ElementNode d attr cs) st w =
          renderDocumentChildren U cfg (filter (\<lambda>c. Type c \<noteq> TextNode) cs) st w"
    by (rule render_not_renderable) (rule isElementRenderable_unknown [OF none])
  show "fst (render U cfg (Node ElementNode d attr cs) st w) \<noteq> Err (VoidElementHasChildren d)"
    by (rule render_no_void_error_without_policy [OF none])
qed

theorem void_check_only_when_renderable_witness:
  "\<not> fst (isElementRenderable (\<lambda>r. r) canonical_config ''col''
            \<lparr>encounteredBodyElement = True, encounteredFirstH1Element = False\<rparr>)
   \<and> voidElements ''col''
   \<and> render (\<lambda>r. r) canonical_config
         (Node ElementNode ''col'' [] [Node TextNode ''x'' [] []])
         \<lparr>encounteredBodyElement = True, encounteredFirstH1Element = False\<rparr> []
       = (Ok, \<lparr>encounteredBodyElement = True, encounteredFirstH1Element = False\<rparr>, [])
   \<and> \<not> fst (isElementRenderable (\<lambda>r. r) plain_config ''img'' initial_state)
   \<and> voidElements ''img''
   \<and> render (\<lambda>r. r) plain_config
         (Node ElementNode ''img'' []
            [Node TextNode ''x'' [] [],
             Node ElementNode ''p'' [] [Node TextNode ''y'' [] []],
             Node ElementNode ''b'' [] [Node TextNode ''z'' [] []]])
         initial_state []
       = (Ok, initial_state, ''\<newline><p>y</p>\<newline><b>z</b>'')"
proof -
  have h1: "\<not> fst (isElementRenderable (\<lambda>r. r) canonical_config ''col''
            \<lparr>encounteredBodyElement = True, encounteredFirstH1Element = False\<rparr>)"
    by code_simp
  have v1: "voidElements ''col''" and v2: "voidElements ''img''"
    by (simp_all add: voidElements_def)
  have loop1: "renderElementChildren (\<lambda>r. r) canonical_config ''col''
        [Node TextNode ''x'' [] []]
        (snd (isElementRenderable (\<lambda>r. r) canonical_config ''col''
                \<lparr>encounteredBodyElement = True, encounteredFirstH1Element = False\<rparr>)) []
      = (Ok, \<lparr>encounteredBodyElement = True, encounteredFirstH1Element = False\<rparr>, [])"
    by code_simp
  from void_check_only_when_renderable [OF h1, THEN conjunct1] loop1
  have r1: "render (\<lambda>r. r) canonical_config
         (Node ElementNode ''col'' [] [Node TextNode ''x'' [] []])
         \<lparr>encounteredBodyElement = True, encounteredFirstH1Element = False\<rparr> []
       = (Ok, \<lparr>encounteredBodyElement = True, encounteredFirstH1Element = False\<rparr>, [])"
    by (rule trans)
  have h2: "\<not> fst (isElementRenderable (\<lambda>r. r) plain_config ''img'' initial_state)"
    by code_simp
  have loop2: "renderElementChildren (\<lambda>r. r) plain_config ''img''
        [Node TextNode ''x'' [] [],
         Node ElementNode ''p'' [] [Node TextNode ''y'' [] []],
         Node ElementNode ''b'' [] [Node TextNode ''z'' [] []]]
        (snd (isElementRenderable (\<lambda>r. r) plain_config ''img'' initial_state)) []
      = (Ok, initial_state, ''\<newline><p>y</p>\<newline><b>z</b>'')"
    by code_simp
  from void_check_only_when_renderable [OF h2, THEN conjunct1] loop2
  have r2: "render (\<lambda>r. r) plain_config
         (Node ElementNode ''img'' []
            [Node TextNode ''x'' [] [],
             Node ElementNode ''p'' [] [Node TextNode ''y'' [] []],
             Node ElementNode ''b'' [] [Node TextNode ''z'' [] []]])
         initial_state []
       = (Ok, initial_state, ''\<newline><p>y</p>\<newline><b>z</b>'')"
    by (rule trans)
  from h1 v1 r1 h2 v2 r2 show ?thesis by blast
qed


end
